theory Spec2Isabelle
  imports Main "HOL-Library.Word" "HOL-Library.Multiset" "HOL-Library.AList"
begin

section \<open>JavaScript values\<close>

text \<open>
  A JavaScript string is a sequence of 16-bit code units. Program literals are written as
  Isabelle strings and embedded with \<open>lit\<close>.
\<close>

type_synonym jsstring = "16 word list"

definition lit :: "string \<Rightarrow> jsstring" where
  "lit s = map of_char s"

text \<open>An Error object with its message; \<open>TypeError\<close> is the error of that class.\<close>

datatype jserror = Error jsstring | TypeError jsstring

text \<open>
  The values a property of the parsed request body can have: absent (\<open>undefined\<close>), or a
  JSON value: \<open>null\<close>, a boolean, a number, a string, an array or an object (the list of
  its own properties). A number is given by the string \<open>Number::toString\<close> gives for it,
  which is all the handler observes of it; the number formatting itself is not modelled,
  and the theorems hold for every such string. That string is \<open>0\<close> for the two zeros and
  \<open>NaN\<close> for NaN, the falsy numbers, and for no other number.
\<close>

datatype jsval =
    JUndefined
  | JNull
  | JBool bool
  | JNum jsstring
  | JStr jsstring
  | JArr "jsval list"
  | JObj "(string \<times> jsval) list"

text \<open>\<open>!v\<close> is \<open>\<not> truthy v\<close>.\<close>

fun truthy :: "jsval \<Rightarrow> bool" where
  "truthy JUndefined = False"
| "truthy JNull = False"
| "truthy (JBool b) = b"
| "truthy (JNum r) = (r \<noteq> lit ''0'' \<and> r \<noteq> lit ''NaN'')"
| "truthy (JStr s) = (s \<noteq> [])"
| "truthy (JArr xs) = True"
| "truthy (JObj ps) = True"

text \<open>
  The abstract operation ToString, which \<open>RegExp.prototype.test\<close> applies to its
  argument. For an object it calls the method \<open>toString\<close>: an object parsed from JSON
  inherits \<open>Object.prototype.toString\<close>, which gives \<open>[object Object]\<close>, unless it has a
  property \<open>toString\<close> of its own; that property is a JSON value, so it is not callable,
  \<open>valueOf\<close> gives no primitive either, and the conversion throws a TypeError. An array
  is joined with commas: \<open>null\<close> and \<open>undefined\<close> elements give the empty string, the
  others are converted in turn, and the first conversion that throws ends the join.
\<close>

definition not_primitive :: jserror where
  "not_primitive = TypeError (lit ''Cannot convert object to primitive value'')"

fun to_string :: "jsval \<Rightarrow> jserror + jsstring"
  and join :: "jsval list \<Rightarrow> jserror + jsstring"
  and element_string :: "jsval \<Rightarrow> jserror + jsstring" where
  "to_string JUndefined = Inr (lit ''undefined'')"
| "to_string JNull = Inr (lit ''null'')"
| "to_string (JBool b) = Inr (if b then lit ''true'' else lit ''false'')"
| "to_string (JNum r) = Inr r"
| "to_string (JStr s) = Inr s"
| "to_string (JArr xs) = join xs"
| "to_string (JObj ps) =
     (if ''toString'' \<in> set (map fst ps) then Inl not_primitive
      else Inr (lit ''[object Object]''))"
| "join [] = Inr []"
| "join [x] = element_string x"
| "join (x # y # ys) =
     (case element_string x of
        Inl err \<Rightarrow> Inl err
      | Inr s \<Rightarrow> (case join (y # ys) of
                    Inl err \<Rightarrow> Inl err
                  | Inr r \<Rightarrow> Inr (s @ [0x2C] @ r)))"
| "element_string JUndefined = Inr []"
| "element_string JNull = Inr []"
| "element_string (JBool b) = to_string (JBool b)"
| "element_string (JNum r) = to_string (JNum r)"
| "element_string (JStr s) = to_string (JStr s)"
| "element_string (JArr xs) = to_string (JArr xs)"
| "element_string (JObj ps) = to_string (JObj ps)"

text \<open>
  \<open>Number.prototype.toString\<close> on an integer: decimal digits, with a leading minus sign
  for a negative number (the form taken by every value \<open>Date.now()\<close> can return).
\<close>

fun digits :: "nat \<Rightarrow> jsstring" where
  "digits n = (if n < 10 then [of_nat (48 + n)] else digits (n div 10) @ [of_nat (48 + n mod 10)])"

definition number_to_string :: "int \<Rightarrow> jsstring" where
  "number_to_string n = (if n < 0 then 45 # digits (nat (- n)) else digits (nat n))"

section \<open>The e-mail pattern of the request handler\<close>

text \<open>
  The class \<open>\s\<close> of ECMAScript: the WhiteSpace and LineTerminator code points.
\<close>

definition white_space :: "16 word \<Rightarrow> bool" where
  "white_space c \<longleftrightarrow>
     c \<in> {0x0009, 0x000A, 0x000B, 0x000C, 0x000D, 0x0020, 0x00A0, 0x1680,
          0x2028, 0x2029, 0x202F, 0x205F, 0x3000, 0xFEFF}
     \<or> (0x2000 \<le> c \<and> c \<le> 0x200A)"

text \<open>The class \<open>[^\s@]\<close>.\<close>

definition not_space_at :: "16 word \<Rightarrow> bool" where
  "not_space_at c \<longleftrightarrow> \<not> white_space c \<and> c \<noteq> 0x40"

text \<open>
  The pattern language that \<open>emailRegex\<close> uses: a sequence of items, each a literal code
  unit or a class repeated one or more times. \<open>rx_match\<close> is the anchored match
  (\<open>^ ... $\<close>, no flags) with backtracking over the repetitions.
\<close>

datatype item = Many1 "16 word \<Rightarrow> bool" | Lit "16 word"

fun rx_match :: "item list \<Rightarrow> jsstring \<Rightarrow> bool" where
  "rx_match [] s = (s = [])"
| "rx_match (Lit c # r) [] = False"
| "rx_match (Lit c # r) (x # xs) = (x = c \<and> rx_match r xs)"
| "rx_match (Many1 p # r) [] = False"
| "rx_match (Many1 p # r) (x # xs) = (p x \<and> (rx_match r xs \<or> rx_match (Many1 p # r) xs))"

text \<open>\<^verbatim>\<open>/^[^\s@]+@[^\s@]+\.[^\s@]+$/\<close>\<close>

definition emailRegex :: "item list" where
  "emailRegex = [Many1 not_space_at, Lit 0x40, Many1 not_space_at, Lit 0x2E, Many1 not_space_at]"

text \<open>\<open>emailRegex.test(v)\<close>: it throws when the conversion of \<open>v\<close> to a string does.\<close>

definition emailRegex_test :: "jsval \<Rightarrow> jserror + bool" where
  "emailRegex_test v =
     (case to_string v of
        Inl err \<Rightarrow> Inl err
      | Inr str \<Rightarrow> Inr (rx_match emailRegex str))"

text \<open>
  The shape \<open>x@y.z\<close> in words: the string splits as \<open>x\<close>, an at-sign, \<open>y\<close>, a dot,
  \<open>z\<close>, where the three parts are non-empty and hold neither whitespace nor an at-sign
  (so the at-sign is the only one, and the dot lies inside the domain part).
\<close>

definition xyz_shape :: "jsstring \<Rightarrow> bool" where
  "xyz_shape s \<longleftrightarrow>
     (\<exists>x y z. s = x @ [0x40] @ y @ [0x2E] @ z \<and> x \<noteq> [] \<and> y \<noteq> [] \<and> z \<noteq> [] \<and>
        (\<forall>c \<in> set (x @ y @ z). \<not> white_space c \<and> c \<noteq> 0x40))"

section \<open>Data model\<close>

text \<open>
  A stored submission. \<open>contact_id\<close> is the field \<open>_id\<close>; \<open>submittedAt\<close> is a Date, kept
  as its time value (milliseconds since the epoch).
\<close>

record contact =
  contact_id :: jsstring
  name :: jsval
  email :: jsval
  phone :: jsval
  service :: jsval
  message :: jsval
  submittedAt :: int
  status :: jsval

text \<open>A call made to the model of the primary store.\<close>

datatype db_call = Create jsval jsval jsval jsval jsval | Find

text \<open>One call of the logger of the enhanced server: level, message, error, metadata.\<close>

datatype level = INFO | WARN | ERROR | DEBUG

datatype meta = MVal jsval | MNum int | MObj "(string \<times> jsval) list"

record log_entry =
  level :: level
  msg :: string
  thrown :: "jserror option"
  meta :: "(string \<times> meta) list"

text \<open>
  The process state: the module-level list \<open>fallbackContacts\<close>, the calls that reached the
  primary store, and the logger's output.
\<close>

record state =
  fallbackContacts :: "contact list"
  db_calls :: "db_call list"
  logs :: "log_entry list"

text \<open>
  The response bodies the server sends:
  \<open>Failure m\<close> is \<open>{success: false, message: m}\<close>,
  \<open>FailureDetail m e r\<close> is \<open>{success: false, message: m, error: e, requestId: r}\<close>,
  \<open>Submitted m i t\<close> is \<open>{success: true, message: m, data: {id: i, submittedAt: t}}\<close>,
  \<open>Listing cs s\<close> is \<open>{success: true, data: cs, source: s}\<close>.
\<close>

datatype body =
    Failure string
  | FailureDetail string jsstring jsval
  | Submitted string jsstring int
  | Listing "contact list" string

record response =
  statusCode :: nat
  json :: body

text \<open>
  The parsed request body \<open>req.body\<close>: a JSON object as the list of its properties, in
  their order. \<open>get_prop b k\<close> is \<open>b[k]\<close>, \<open>undefined\<close> for a property the object does
  not have.
\<close>

type_synonym payload = "(string \<times> jsval) list"

definition get_prop :: "payload \<Rightarrow> string \<Rightarrow> jsval" where
  "get_prop b k = (case map_of b k of None \<Rightarrow> JUndefined | Some v \<Rightarrow> v)"

text \<open>
  What a request to \<open>POST /api/contact\<close> finds outside the handler:
  \<open>mongoose.connection.readyState\<close>, what \<open>Contact.create\<close> does when called (it rejects
  with an error, or resolves to the stored document), the clock readings of
  \<open>Date.now()\<close> and \<open>new Date()\<close> in the fallback branch, the request id and whether
  \<open>NODE_ENV\<close> is \<open>development\<close>.
\<close>

record post_env =
  readyState :: nat
  create_outcome :: "jserror + contact"
  date_now :: int
  new_date :: int
  requestId :: jsstring
  development :: bool

section \<open>POST /api/contact (src/index.js)\<close>

text \<open>
  The handler of src/index.js, lines 79-193. Its \<open>console\<close> output is not part of the
  model; the logger calls of the second version of the server are (see below). The
  connection state is read once per submission; the later reads of the second version
  only fill log fields.
\<close>

text \<open>The \<open>try\<close> block of the save, lines 102-115.\<close>

definition primary_save ::
  "post_env \<Rightarrow> jsval \<Rightarrow> jsval \<Rightarrow> jsval \<Rightarrow> jsval \<Rightarrow> jsval \<Rightarrow> state \<Rightarrow> state \<times> (jserror + contact)" where
  "primary_save env n e p s m st =
     (if readyState env = 1
      then (st\<lparr>db_calls := db_calls st @ [Create n e p s m]\<rparr>, create_outcome env)
      else (st, Inl (Error (lit ''MongoDB not connected''))))"

text \<open>The \<open>catch\<close> block of the save, lines 116-131.\<close>

definition fallback_save ::
  "post_env \<Rightarrow> jsval \<Rightarrow> jsval \<Rightarrow> jsval \<Rightarrow> jsval \<Rightarrow> jsval \<Rightarrow> state \<Rightarrow> state \<times> contact" where
  "fallback_save env n e p s m st =
     (let savedContact =
            \<lparr>contact_id = number_to_string (date_now env),
             name = n, email = e, phone = p, service = s, message = m,
             submittedAt = new_date env,
             status = JStr (lit ''new'')\<rparr>
      in (st\<lparr>fallbackContacts := fallbackContacts st @ [savedContact]\<rparr>, savedContact))"

text \<open>The save with fallback, lines 100-131.\<close>

definition save_contact ::
  "post_env \<Rightarrow> jsval \<Rightarrow> jsval \<Rightarrow> jsval \<Rightarrow> jsval \<Rightarrow> jsval \<Rightarrow> state \<Rightarrow> state \<times> contact" where
  "save_contact env n e p s m st =
     (case primary_save env n e p s m st of
        (st', Inr savedContact) \<Rightarrow> (st', savedContact)
      | (st', Inl dbError) \<Rightarrow> fallback_save env n e p s m st')"

text \<open>
  The outer \<open>try\<close> block, lines 80-184. The one statement of it that can throw outside
  the save is \<open>emailRegex.test(email)\<close>; the result is the response sent, or the error
  thrown.
\<close>

definition post_contact_try ::
  "post_env \<Rightarrow> payload \<Rightarrow> state \<Rightarrow> state \<times> (jserror + response)" where
  "post_contact_try env b st =
     (let n = get_prop b ''name''; e = get_prop b ''email''; p = get_prop b ''phone'';
          s = get_prop b ''service''; m = get_prop b ''message''
      in if \<not> truthy n \<or> \<not> truthy e \<or> \<not> truthy s \<or> \<not> truthy m
         then (st, Inr \<lparr>statusCode = 400,
                         json = Failure ''Please fill in all required fields.''\<rparr>)
         else (case emailRegex_test e of
                 Inl error \<Rightarrow> (st, Inl error)
               | Inr matches \<Rightarrow>
                   if \<not> matches
                   then (st, Inr \<lparr>statusCode = 400,
                                   json = Failure ''Please enter a valid email address.''\<rparr>)
                   else (case save_contact env n e p s m st of
                           (st', savedContact) \<Rightarrow>
                             (st', Inr \<lparr>statusCode = 200,
                                        json = Submitted
                                          ''Thank you for your message! We will get back to you within 24 hours.''
                                          (contact_id savedContact)
                                          (submittedAt savedContact)\<rparr>))))"

text \<open>The outer \<open>catch\<close>, lines 186-192, in the state reached when the error was thrown.\<close>

definition post_contact_catch :: "state \<Rightarrow> state \<times> response" where
  "post_contact_catch st =
     (st, \<lparr>statusCode = 500,
           json = Failure
             ''Sorry, there was an error submitting your message. Please try again later.''\<rparr>)"

text \<open>The handler, lines 79-193.\<close>

definition post_contact :: "post_env \<Rightarrow> payload \<Rightarrow> state \<Rightarrow> state \<times> response" where
  "post_contact env b st =
     (case post_contact_try env b st of
        (st', Inr res) \<Rightarrow> (st', res)
      | (st', Inl error) \<Rightarrow> post_contact_catch st')"

section \<open>GET /api/contacts (src/index.js)\<close>

text \<open>
  What a request to \<open>GET /api/contacts\<close> finds outside the handler: the connection state
  when the handler chooses the tier (line 200), what \<open>Contact.find().sort(...)\<close> does when
  called, and the connection state when the response is built (line 218).
\<close>

record get_env =
  readyState_first :: nat
  find_outcome :: "jserror + contact list"
  readyState_second :: nat

text \<open>
  \<open>fallbackContacts.sort((a, b) => new Date(b.submittedAt) - new Date(a.submittedAt))\<close>:
  \<open>Array.prototype.sort\<close> is stable and sorts the array it is called on; the comparator
  puts the later \<open>submittedAt\<close> first.
\<close>

definition sort_desc :: "contact list \<Rightarrow> contact list" where
  "sort_desc cs = sort_key (\<lambda>c. - submittedAt c) cs"

definition get_contacts :: "get_env \<Rightarrow> state \<Rightarrow> state \<times> response" where
  "get_contacts env st =
     (case (if readyState_first env = 1
            then (case find_outcome env of
                    Inr docs \<Rightarrow> (st\<lparr>db_calls := db_calls st @ [Find]\<rparr>, docs)
                  | Inl dbError \<Rightarrow>
                      (st\<lparr>db_calls := db_calls st @ [Find],
                          fallbackContacts := sort_desc (fallbackContacts st)\<rparr>,
                       sort_desc (fallbackContacts st)))
            else (st\<lparr>fallbackContacts := sort_desc (fallbackContacts st)\<rparr>,
                  sort_desc (fallbackContacts st)))
      of (st', contacts) \<Rightarrow>
        (st', \<lparr>statusCode = 200,
               json = Listing contacts
                 (if readyState_second env = 1 then ''mongodb'' else ''fallback'')\<rparr>))"

text \<open>
  The outer \<open>catch\<close>, lines 220-226. The one call of the outer \<open>try\<close> block that can throw,
  \<open>Contact.find\<close>, is inside the inner \<open>try\<close>, so \<open>get_contacts\<close> does not reach it.
\<close>

definition get_contacts_catch :: "state \<Rightarrow> state \<times> response" where
  "get_contacts_catch st =
     (st, \<lparr>statusCode = 500, json = Failure ''Error fetching contacts''\<rparr>)"

text \<open>The data and the source of a listing response.\<close>

fun listing_data :: "body \<Rightarrow> contact list" where
  "listing_data (Listing cs src) = cs"
| "listing_data other = []"

fun listing_source :: "body \<Rightarrow> string" where
  "listing_source (Listing cs src) = src"
| "listing_source other = []"

section \<open>POST /api/contact with logging (src/unnamed/part_000, lines 346-514)\<close>

definition log_call :: "log_entry \<Rightarrow> state \<Rightarrow> state" where
  "log_call e st = st\<lparr>logs := logs st @ [e]\<rparr>"

text \<open>\<open>logger.debug\<close> writes only when \<open>NODE_ENV\<close> is \<open>development\<close>.\<close>

definition log_debug :: "post_env \<Rightarrow> log_entry \<Rightarrow> state \<Rightarrow> state" where
  "log_debug env e st = (if development env then log_call e st else st)"

text \<open>\<open>{ ...req.body, message: req.body.message ? '[REDACTED]' : undefined }\<close>\<close>

definition redacted :: "payload \<Rightarrow> payload" where
  "redacted b =
     AList.update ''message''
       (if truthy (get_prop b ''message'') then JStr (lit ''[REDACTED]'') else JUndefined) b"

text \<open>The \<open>try\<close> block of the save, lines 389-414.\<close>

definition primary_save_logged ::
  "post_env \<Rightarrow> jsval \<Rightarrow> jsval \<Rightarrow> jsval \<Rightarrow> jsval \<Rightarrow> jsval \<Rightarrow> state \<Rightarrow> state \<times> (jserror + contact)" where
  "primary_save_logged env n e p s m st =
     (if readyState env = 1
      then
        (let st1 = log_debug env
                     \<lparr>level = DEBUG, msg = ''Attempting to save contact to MongoDB'',
                      thrown = None,
                      meta = [(''requestId'', MVal (JStr (requestId env))),
                              (''mongoState'', MNum (int (readyState env)))]\<rparr> st;
             st2 = st1\<lparr>db_calls := db_calls st1 @ [Create n e p s m]\<rparr>
         in case create_outcome env of
              Inl dbError \<Rightarrow> (st2, Inl dbError)
            | Inr savedContact \<Rightarrow>
                (log_call
                   \<lparr>level = INFO, msg = ''Contact successfully saved to MongoDB'',
                    thrown = None,
                    meta = [(''requestId'', MVal (JStr (requestId env))),
                            (''contactId'', MVal (JStr (contact_id savedContact))),
                            (''name'', MVal n), (''email'', MVal e), (''service'', MVal s)]\<rparr> st2,
                 Inr savedContact))
      else (st, Inl (Error (lit ''MongoDB not connected''))))"

text \<open>The \<open>catch\<close> block of the save, lines 415-440.\<close>

fun error_message :: "jserror \<Rightarrow> jsstring" where
  "error_message (Error m) = m"
| "error_message (TypeError m) = m"

definition fallback_save_logged ::
  "post_env \<Rightarrow> jserror \<Rightarrow> jsval \<Rightarrow> jsval \<Rightarrow> jsval \<Rightarrow> jsval \<Rightarrow> jsval \<Rightarrow> state \<Rightarrow> state \<times> contact" where
  "fallback_save_logged env dbError n e p s m st =
     (let st1 = log_call
                  \<lparr>level = WARN, msg = ''MongoDB save failed, using fallback storage'',
                   thrown = None,
                   meta = [(''requestId'', MVal (JStr (requestId env))),
                           (''error'', MVal (JStr (error_message dbError))),
                           (''mongoState'', MNum (int (readyState env)))]\<rparr> st;
          savedContact =
            \<lparr>contact_id = number_to_string (date_now env),
             name = n, email = e, phone = p, service = s, message = m,
             submittedAt = new_date env,
             status = JStr (lit ''new'')\<rparr>;
          st2 = st1\<lparr>fallbackContacts := fallbackContacts st1 @ [savedContact]\<rparr>
      in (log_call
            \<lparr>level = INFO, msg = ''Contact saved to fallback storage'',
             thrown = None,
             meta = [(''requestId'', MVal (JStr (requestId env))),
                     (''contactId'', MVal (JStr (contact_id savedContact))),
                     (''fallbackCount'', MNum (int (length (fallbackContacts st2))))]\<rparr> st2,
          savedContact))"

definition save_contact_logged ::
  "post_env \<Rightarrow> jsval \<Rightarrow> jsval \<Rightarrow> jsval \<Rightarrow> jsval \<Rightarrow> jsval \<Rightarrow> state \<Rightarrow> state \<times> contact" where
  "save_contact_logged env n e p s m st =
     (case primary_save_logged env n e p s m st of
        (st', Inr savedContact) \<Rightarrow> (st', savedContact)
      | (st', Inl dbError) \<Rightarrow> fallback_save_logged env dbError n e p s m st')"

text \<open>
  The outer \<open>catch\<close>, lines 503-513, for the error caught, in the state reached when it
  was thrown.
\<close>

definition contact_catch :: "post_env \<Rightarrow> jserror \<Rightarrow> payload \<Rightarrow> state \<Rightarrow> state \<times> response" where
  "contact_catch env error b st =
     (log_call
        \<lparr>level = ERROR, msg = ''Contact form submission failed'', thrown = Some error,
         meta = [(''requestId'', MVal (JStr (requestId env))),
                 (''body'', MObj (redacted b))]\<rparr> st,
      \<lparr>statusCode = 500,
       json = Failure
         ''Sorry, there was an error submitting your message. Please try again later.''\<rparr>)"

text \<open>The outer \<open>try\<close> block, lines 349-501: the response sent, or the error thrown.\<close>

definition post_contact_logged_try ::
  "post_env \<Rightarrow> payload \<Rightarrow> state \<Rightarrow> state \<times> (jserror + response)" where
  "post_contact_logged_try env b st =
     (let st0 = log_call
                  \<lparr>level = INFO, msg = ''Contact form submission started'', thrown = None,
                   meta = [(''requestId'', MVal (JStr (requestId env))),
                           (''body'', MObj (redacted b))]\<rparr> st;
          n = get_prop b ''name''; e = get_prop b ''email''; p = get_prop b ''phone'';
          s = get_prop b ''service''; m = get_prop b ''message''
      in if \<not> truthy n \<or> \<not> truthy e \<or> \<not> truthy s \<or> \<not> truthy m
         then
           (log_call
              \<lparr>level = WARN,
               msg = ''Contact form validation failed - missing required fields'',
               thrown = None,
               meta = [(''requestId'', MVal (JStr (requestId env))),
                       (''missingFields'',
                        MObj [(''name'', JBool (\<not> truthy n)), (''email'', JBool (\<not> truthy e)),
                              (''service'', JBool (\<not> truthy s)),
                              (''message'', JBool (\<not> truthy m))])]\<rparr> st0,
            Inr \<lparr>statusCode = 400, json = Failure ''Please fill in all required fields.''\<rparr>)
         else (case emailRegex_test e of
                 Inl error \<Rightarrow> (st0, Inl error)
               | Inr matches \<Rightarrow>
                   if \<not> matches
                   then
                     (log_call
                        \<lparr>level = WARN,
                         msg = ''Contact form validation failed - invalid email format'',
                         thrown = None,
                         meta = [(''requestId'', MVal (JStr (requestId env))),
                                 (''email'', MVal e)]\<rparr> st0,
                      Inr \<lparr>statusCode = 400,
                           json = Failure ''Please enter a valid email address.''\<rparr>)
                   else (case save_contact_logged env n e p s m st0 of
                           (st', savedContact) \<Rightarrow>
                             (log_call
                                \<lparr>level = INFO,
                                 msg = ''Contact form submission completed successfully'',
                                 thrown = None,
                                 meta = [(''requestId'', MVal (JStr (requestId env))),
                                         (''contactId'', MVal (JStr (contact_id savedContact))),
                                         (''name'', MVal n), (''email'', MVal e),
                                         (''service'', MVal s)]\<rparr> st',
                              Inr \<lparr>statusCode = 200,
                                   json = Submitted
                                     ''Thank you for your message! We will get back to you within 24 hours.''
                                     (contact_id savedContact)
                                     (submittedAt savedContact)\<rparr>))))"

text \<open>The handler, lines 346-514.\<close>

definition post_contact_logged :: "post_env \<Rightarrow> payload \<Rightarrow> state \<Rightarrow> state \<times> response" where
  "post_contact_logged env b st =
     (case post_contact_logged_try env b st of
        (st', Inr res) \<Rightarrow> (st', res)
      | (st', Inl error) \<Rightarrow> contact_catch env error b st')"

section \<open>The error handling middleware (src/unnamed/part_000, lines 517-541)\<close>

text \<open>The fields of the request that the middleware reads.\<close>

record request_info =
  req_requestId :: jsval
  req_method :: jsval
  req_url :: jsval
  req_ip :: jsval
  req_userAgent :: jsval

text \<open>
  \<open>isDevelopment\<close> is \<open>process.env.NODE_ENV === 'development'\<close>. The logged stack is that of
  the error in \<open>thrown\<close>.
\<close>

definition error_middleware :: "bool \<Rightarrow> jserror \<Rightarrow> request_info \<Rightarrow> state \<Rightarrow> state \<times> response" where
  "error_middleware isDevelopment err req st =
     (let requestId = (if truthy (req_requestId req) then req_requestId req
                       else JStr (lit ''unknown''))
      in (log_call
            \<lparr>level = ERROR, msg = ''Unhandled error occurred'', thrown = Some err,
             meta = [(''requestId'', MVal requestId), (''method'', MVal (req_method req)),
                     (''url'', MVal (req_url req)), (''ip'', MVal (req_ip req)),
                     (''userAgent'', MVal (req_userAgent req))]\<rparr> st,
          \<lparr>statusCode = 500,
           json = (if isDevelopment
                   then FailureDetail ''Something went wrong!'' (error_message err) requestId
                   else Failure ''Something went wrong!'')\<rparr>))"

section \<open>The stored schema (src/unnamed/part_000, lines 28-44)\<close>

text \<open>The values of the \<open>enum\<close> of the field \<open>service\<close>.\<close>

definition service_enum :: "jsstring list" where
  "service_enum = map lit
     [''Interior Painting'', ''Exterior Painting'', ''Waterproofing'', ''POP Work'',
      ''Tile Installation'', ''Civil Work'', ''Carpenter Work'']"

section \<open>Sequences of requests\<close>

text \<open>Submissions handled one after the other, each with its own environment.\<close>

fun submit_all :: "(post_env \<times> payload) list \<Rightarrow> state \<Rightarrow> state" where
  "submit_all [] st = st"
| "submit_all (r # rs) st = submit_all rs (fst (post_contact (fst r) (snd r) st))"

text \<open>
  Requests handled one after the other: submissions and listings, each with its own
  environment.
\<close>

datatype request = Submit post_env payload | ListAll get_env

fun run :: "request list \<Rightarrow> state \<Rightarrow> state" where
  "run [] st = st"
| "run (Submit env b # rs) st = run rs (fst (post_contact env b st))"
| "run (ListAll g # rs) st = run rs (fst (get_contacts g st))"

text \<open>
  The records one submission pushes onto the fallback list: those beyond the former
  length of the list.
\<close>

definition appended_by :: "post_env \<Rightarrow> payload \<Rightarrow> state \<Rightarrow> contact list" where
  "appended_by env b st =
     drop (length (fallbackContacts st)) (fallbackContacts (fst (post_contact env b st)))"

text \<open>The records pushed during a sequence of requests, in the order of their insertion.\<close>

fun appended :: "request list \<Rightarrow> state \<Rightarrow> contact list" where
  "appended [] st = []"
| "appended (Submit env b # rs) st =
     appended_by env b st @ appended rs (fst (post_contact env b st))"
| "appended (ListAll g # rs) st = appended rs (fst (get_contacts g st))"

text \<open>
  The readings of \<open>new Date()\<close> taken during a sequence of requests: one by each
  submission that reaches the fallback branch (line 126), none by the others.
\<close>

fun clock_readings :: "request list \<Rightarrow> state \<Rightarrow> int list" where
  "clock_readings [] st = []"
| "clock_readings (Submit env b # rs) st =
     (if appended_by env b st = [] then [] else [new_date env])
       @ clock_readings rs (fst (post_contact env b st))"
| "clock_readings (ListAll g # rs) st = clock_readings rs (fst (get_contacts g st))"

text \<open>
  The upfront checks of the handler (lines 84 and 93) pass: the four fields are truthy and
  the pattern matches.
\<close>

definition passes_checks :: "payload \<Rightarrow> bool" where
  "passes_checks b \<longleftrightarrow>
     truthy (get_prop b ''name'') \<and> truthy (get_prop b ''email'') \<and>
     truthy (get_prop b ''service'') \<and> truthy (get_prop b ''message'') \<and>
     emailRegex_test (get_prop b ''email'') = Inr True"

text \<open>The record the fallback branch builds for a body.\<close>

definition fallback_record :: "post_env \<Rightarrow> payload \<Rightarrow> contact" where
  "fallback_record env b =
     \<lparr>contact_id = number_to_string (date_now env),
      name = get_prop b ''name'', email = get_prop b ''email'', phone = get_prop b ''phone'',
      service = get_prop b ''service'', message = get_prop b ''message'',
      submittedAt = new_date env, status = JStr (lit ''new'')\<rparr>"

text \<open>
  The submission reaches the outer \<open>catch\<close>: the four fields are truthy and the pattern
  test throws.
\<close>

definition reaches_catch :: "payload \<Rightarrow> bool" where
  "reaches_catch b \<longleftrightarrow>
     truthy (get_prop b ''name'') \<and> truthy (get_prop b ''email'') \<and>
     truthy (get_prop b ''service'') \<and> truthy (get_prop b ''message'') \<and>
     isl (emailRegex_test (get_prop b ''email''))"

text \<open>The \<open>body\<close> objects among the metadata of log entries.\<close>

fun meta_bodies :: "(string \<times> meta) list \<Rightarrow> payload list" where
  "meta_bodies [] = []"
| "meta_bodies ((k, MObj b) # ms) = (if k = ''body'' then b # meta_bodies ms else meta_bodies ms)"
| "meta_bodies ((k, other) # ms) = meta_bodies ms"

definition logged_bodies :: "log_entry list \<Rightarrow> payload list" where
  "logged_bodies es = concat (map (\<lambda>e. meta_bodies (meta e)) es)"

section \<open>Example inputs\<close>

text \<open>Scenario A of the specification, and variants of it.\<close>

definition scenario_A :: payload where
  "scenario_A =
     [(''name'', JStr (lit ''Jo'')), (''email'', JStr (lit ''jo@x.com'')),
      (''service'', JStr (lit ''Civil Work'')),
      (''message'', JStr (lit ''please call me back soon''))]"

definition scenario_B :: payload where
  "scenario_B =
     [(''name'', JStr (lit ''Jo'')), (''email'', JStr (lit ''jo@x.com'')),
      (''service'', JStr (lit ''Plumbing'')),
      (''message'', JStr (lit ''please call me back soon''))]"

definition scenario_C :: payload where
  "scenario_C =
     [(''name'', JStr (lit ''Jo'')), (''email'', JStr (lit ''jo@x.com'')),
      (''service'', JStr (lit ''Civil Work''))]"



text \<open>The primary store is disconnected; the clock reads the given millisecond.\<close>

definition env_down :: "int \<Rightarrow> post_env" where
  "env_down t =
     \<lparr>readyState = 0, create_outcome = Inl (Error (lit ''not called'')),
      date_now = t, new_date = t, requestId = lit ''req-1'', development = False\<rparr>"

text \<open>The primary store is connected and rejects the write.\<close>

definition env_write_fails :: "int \<Rightarrow> post_env" where
  "env_write_fails t =
     \<lparr>readyState = 1, create_outcome = Inl (Error (lit ''Contact validation failed: service: Please select a valid service'')),
      date_now = t, new_date = t, requestId = lit ''req-2'', development = False\<rparr>"

definition state0 :: state where
  "state0 = \<lparr>fallbackContacts = [], db_calls = [], logs = []\<rparr>"

text \<open>Listing requests: the primary store disconnected, answering, and failing.\<close>

definition list_down :: get_env where
  "list_down = \<lparr>readyState_first = 0, find_outcome = Inl (Error (lit ''not called'')),
                readyState_second = 0\<rparr>"

definition list_primary :: get_env where
  "list_primary = \<lparr>readyState_first = 1, find_outcome = Inr [], readyState_second = 1\<rparr>"

text \<open>A document of the primary store, and a listing that the primary store answers with it.\<close>

definition primary_doc :: contact where
  "primary_doc =
     \<lparr>contact_id = lit ''65a1f0c2e4b0a1b2c3d4e5f6'',
      name = JStr (lit ''Ann''), email = JStr (lit ''ann@x.com''), phone = JUndefined,
      service = JStr (lit ''Waterproofing''), message = JStr (lit ''roof leaks since monday''),
      submittedAt = 1700000000000, status = JUndefined\<rparr>"

definition list_primary_doc :: get_env where
  "list_primary_doc =
     \<lparr>readyState_first = 1, find_outcome = Inr [primary_doc], readyState_second = 1\<rparr>"

definition list_read_fails :: get_env where
  "list_read_fails = \<lparr>readyState_first = 1, find_outcome = Inl (Error (lit ''timed out'')),
                      readyState_second = 1\<rparr>"

section \<open>Auxiliary facts\<close>

subsection \<open>The pattern matcher\<close>

lemma rx_match_Lit: "rx_match (Lit c # r) s \<longleftrightarrow> (\<exists>xs. s = c # xs \<and> rx_match r xs)"
  by (cases s) auto

lemma rx_match_Many1:
  "rx_match (Many1 p # r) s \<longleftrightarrow> (\<exists>a b. s = a @ b \<and> a \<noteq> [] \<and> list_all p a \<and> rx_match r b)"
proof (induction s)
  case Nil
  show ?case by simp
next
  case (Cons x xs)
  show ?case
  proof
    assume "rx_match (Many1 p # r) (x # xs)"
    then have px: "p x" and alt: "rx_match r xs \<or> rx_match (Many1 p # r) xs" by auto
    from alt show "\<exists>a b. x # xs = a @ b \<and> a \<noteq> [] \<and> list_all p a \<and> rx_match r b"
    proof
      assume "rx_match r xs"
      with px have "x # xs = [x] @ xs \<and> [x] \<noteq> [] \<and> list_all p [x] \<and> rx_match r xs" by simp
      then show ?thesis by blast
    next
      assume "rx_match (Many1 p # r) xs"
      with Cons.IH obtain a b where "xs = a @ b" "a \<noteq> []" "list_all p a" "rx_match r b" by blast
      with px have "x # xs = (x # a) @ b \<and> x # a \<noteq> [] \<and> list_all p (x # a) \<and> rx_match r b" by simp
      then show ?thesis by blast
    qed
  next
    assume "\<exists>a b. x # xs = a @ b \<and> a \<noteq> [] \<and> list_all p a \<and> rx_match r b"
    then obtain a b where ab: "x # xs = a @ b" "a \<noteq> []" "list_all p a" "rx_match r b" by blast
    then obtain a' where a: "a = x # a'" by (cases a) auto
    with ab have px: "p x" and xs: "xs = a' @ b" and pa: "list_all p a'" by auto
    show "rx_match (Many1 p # r) (x # xs)"
    proof (cases "a' = []")
      case True
      with xs ab px show ?thesis by simp
    next
      case False
      with xs pa ab(4) Cons.IH have "rx_match (Many1 p # r) xs" by blast
      with px show ?thesis by simp
    qed
  qed
qed

lemma rx_match_end: "rx_match [Many1 p] s \<longleftrightarrow> s \<noteq> [] \<and> list_all p s"
  by (auto simp: rx_match_Many1)


lemma emailRegex_shape: "rx_match emailRegex s \<longleftrightarrow> xyz_shape s"
  unfolding emailRegex_def xyz_shape_def
  by (simp add: rx_match_Many1 rx_match_Lit rx_match_end not_space_at_def list_all_iff ball_Un)
    fastforce

subsection \<open>Decimal rendering is injective\<close>

declare digits.simps [simp del]

lemma digit_char_inj:
  assumes "a < 10" "b < 10" "(of_nat (48 + a) :: 16 word) = of_nat (48 + b)"
  shows "a = b"
proof -
  from assms(3) have "(48 + a) mod 2 ^ LENGTH(16) = (48 + b) mod 2 ^ LENGTH(16)"
    by (metis unat_of_nat)
  with assms(1,2) show ?thesis by simp
qed

lemma digit_char_not_minus: "a < 10 \<Longrightarrow> (of_nat (48 + a) :: 16 word) \<noteq> 45"
proof
  assume a: "a < 10" and "(of_nat (48 + a) :: 16 word) = 45"
  then have "(of_nat (48 + a) :: 16 word) = of_nat 45" by simp
  then have "(48 + a) mod 2 ^ LENGTH(16) = 45 mod 2 ^ LENGTH(16)"
    by (metis unat_of_nat)
  with a show False by simp
qed

lemma digits_not_Nil: "digits n \<noteq> []"
  by (subst digits.simps) simp

lemma digits_inj: "digits n = digits m \<Longrightarrow> n = m"
proof (induction n arbitrary: m rule: digits.induct)
  case (1 n)
  show ?case
  proof (cases "n < 10")
    case n: True
    show ?thesis
    proof (cases "m < 10")
      case True
      with n "1.prems" show ?thesis
        by (subst (asm) digits.simps, subst (asm) (2) digits.simps) (simp add: digit_char_inj)
    next
      case False
      with n "1.prems" digits_not_Nil [of "m div 10"] show ?thesis
        by (subst (asm) digits.simps, subst (asm) (2) digits.simps) simp
    qed
  next
    case n: False
    show ?thesis
    proof (cases "m < 10")
      case True
      with n "1.prems" digits_not_Nil [of "n div 10"] show ?thesis
        by (subst (asm) digits.simps, subst (asm) (2) digits.simps) simp
    next
      case False
      with n "1.prems" have eq: "digits (n div 10) = digits (m div 10)"
        and d: "(of_nat (48 + n mod 10) :: 16 word) = of_nat (48 + m mod 10)"
        by (subst (asm) digits.simps, subst (asm) (2) digits.simps, simp)+
      from "1.IH" [OF n eq] have "n div 10 = m div 10" .
      moreover from d have "n mod 10 = m mod 10" by (intro digit_char_inj) auto
      ultimately show ?thesis by (metis div_mult_mod_eq)
    qed
  qed
qed

lemma hd_digits_not_minus: "hd (digits n) \<noteq> 45"
proof (induction n rule: digits.induct)
  case (1 n)
  show ?case
  proof (cases "n < 10")
    case True
    with digit_char_not_minus [of n] show ?thesis by (subst digits.simps) (simp del: of_nat_add)
  next
    case False
    with "1.IH" digits_not_Nil [of "n div 10"] show ?thesis
      by (subst digits.simps) simp
  qed
qed

lemma number_to_string_inj: "number_to_string a = number_to_string b \<Longrightarrow> a = b"
proof -
  assume eq: "number_to_string a = number_to_string b"
  have neg: "45 # digits k \<noteq> digits l" for k l
    using hd_digits_not_minus [of l] digits_not_Nil [of l] by (cases "digits l") auto
  show ?thesis
  proof (cases "a < 0")
    case a: True
    show ?thesis
    proof (cases "b < 0")
      case True
      with a eq have "digits (nat (- a)) = digits (nat (- b))" by (simp add: number_to_string_def)
      then have "nat (- a) = nat (- b)" by (rule digits_inj)
      with a True show ?thesis by simp
    next
      case False
      with a eq neg [of "nat (- a)" "nat b"] show ?thesis by (simp add: number_to_string_def)
    qed
  next
    case a: False
    show ?thesis
    proof (cases "b < 0")
      case True
      with a eq neg [of "nat (- b)" "nat a"] show ?thesis by (simp add: number_to_string_def)
    next
      case False
      with a eq have "digits (nat a) = digits (nat b)" by (simp add: number_to_string_def)
      then have "nat a = nat b" by (rule digits_inj)
      with a False show ?thesis by simp
    qed
  qed
qed

subsection \<open>The two versions of the submission handler agree\<close>

lemma logs_irrelevant [simp]:
  "fallbackContacts (log_call e st) = fallbackContacts st"
  "db_calls (log_call e st) = db_calls st"
  "fallbackContacts (log_debug env e st) = fallbackContacts st"
  "db_calls (log_debug env e st) = db_calls st"
  by (simp_all add: log_call_def log_debug_def)

lemma save_logged_agrees:
  assumes "fallbackContacts st = fallbackContacts st'" "db_calls st = db_calls st'"
  shows "snd (save_contact_logged env n e p s m st) = snd (save_contact env n e p s m st')
   \<and> fallbackContacts (fst (save_contact_logged env n e p s m st))
       = fallbackContacts (fst (save_contact env n e p s m st'))
   \<and> db_calls (fst (save_contact_logged env n e p s m st))
       = db_calls (fst (save_contact env n e p s m st'))"
  using assms
  by (simp add: save_contact_logged_def save_contact_def primary_save_logged_def primary_save_def
      fallback_save_logged_def fallback_save_def Let_def split: sum.splits)

lemma post_try_logged_agrees:
  "snd (post_contact_logged_try env b st) = snd (post_contact_try env b st)
   \<and> fallbackContacts (fst (post_contact_logged_try env b st)) =
       fallbackContacts (fst (post_contact_try env b st))
   \<and> db_calls (fst (post_contact_logged_try env b st)) = db_calls (fst (post_contact_try env b st))"
proof -
  let ?st0 = "log_call \<lparr>level = INFO, msg = ''Contact form submission started'', thrown = None,
                   meta = [(''requestId'', MVal (JStr (requestId env))),
                           (''body'', MObj (redacted b))]\<rparr> st"
  have "fallbackContacts ?st0 = fallbackContacts st" "db_calls ?st0 = db_calls st" by simp_all
  from save_logged_agrees [OF this, of env "get_prop b ''name''" "get_prop b ''email''"
      "get_prop b ''phone''" "get_prop b ''service''" "get_prop b ''message''"]
  show ?thesis
    by (simp add: post_contact_logged_try_def post_contact_try_def Let_def split_beta
        split: sum.splits)
qed

lemma post_logged_agrees:
  "snd (post_contact_logged env b st) = snd (post_contact env b st)
   \<and> fallbackContacts (fst (post_contact_logged env b st)) = fallbackContacts (fst (post_contact env b st))
   \<and> db_calls (fst (post_contact_logged env b st)) = db_calls (fst (post_contact env b st))"
  using post_try_logged_agrees [of env b st]
  by (cases "post_contact_logged_try env b st"; cases "post_contact_try env b st")
    (auto simp add: post_contact_logged_def post_contact_def contact_catch_def
      post_contact_catch_def split: sum.splits)

lemma save_contact_fallback:
  assumes "readyState env \<noteq> 1 \<or> (\<exists>err. create_outcome env = Inl err)"
  shows "save_contact env n e p s m st =
     (st\<lparr>db_calls := db_calls st @ (if readyState env = 1 then [Create n e p s m] else []),
         fallbackContacts := fallbackContacts st @
            [\<lparr>contact_id = number_to_string (date_now env),
             name = n, email = e, phone = p, service = s, message = m,
             submittedAt = new_date env, status = JStr (lit ''new'')\<rparr>]\<rparr>,
      \<lparr>contact_id = number_to_string (date_now env),
             name = n, email = e, phone = p, service = s, message = m,
             submittedAt = new_date env, status = JStr (lit ''new'')\<rparr>)"
  using assms
  by (auto simp add: save_contact_def primary_save_def fallback_save_def Let_def)

lemma post_contact_fallback:
  assumes "passes_checks b" "readyState env \<noteq> 1 \<or> (\<exists>err. create_outcome env = Inl err)"
  shows "post_contact env b st =
     (st\<lparr>db_calls := db_calls st @
            (if readyState env = 1
             then [Create (get_prop b ''name'') (get_prop b ''email'') (get_prop b ''phone'')
                     (get_prop b ''service'') (get_prop b ''message'')]
             else []),
         fallbackContacts := fallbackContacts st @ [fallback_record env b]\<rparr>,
      \<lparr>statusCode = 200,
       json = Submitted ''Thank you for your message! We will get back to you within 24 hours.''
                (number_to_string (date_now env)) (new_date env)\<rparr>)"
  using assms(1) save_contact_fallback [OF assms(2)]
  by (simp add: post_contact_def post_contact_try_def passes_checks_def fallback_record_def Let_def)

subsection \<open>The example addresses\<close>


lemma jo_email: "rx_match emailRegex (lit ''jo@x.com'')"
  by (simp add: emailRegex_def lit_def not_space_at_def white_space_def)


section \<open>Properties of the submission handler\<close>

text \<open>
  C2. A body in which one of \<open>name\<close>, \<open>email\<close>, \<open>service\<close>, \<open>message\<close> is missing (or
  otherwise falsy) is answered with status 400 and the message
  "Please fill in all required fields."; the handler makes no call to the primary store and
  leaves the fallback list as it was. This holds for both versions of the handler.
\<close>

theorem missing_field_rejected:
  assumes "\<not> truthy (get_prop b ''name'') \<or> \<not> truthy (get_prop b ''email'')
           \<or> \<not> truthy (get_prop b ''service'') \<or> \<not> truthy (get_prop b ''message'')"
  shows "post_contact env b st =
           (st, \<lparr>statusCode = 400, json = Failure ''Please fill in all required fields.''\<rparr>)
         \<and> snd (post_contact_logged env b st) =
             \<lparr>statusCode = 400, json = Failure ''Please fill in all required fields.''\<rparr>
         \<and> fallbackContacts (fst (post_contact_logged env b st)) = fallbackContacts st
         \<and> db_calls (fst (post_contact_logged env b st)) = db_calls st"
proof -
  from assms have plain: "post_contact env b st =
      (st, \<lparr>statusCode = 400, json = Failure ''Please fill in all required fields.''\<rparr>)"
    by (auto simp add: post_contact_def post_contact_try_def Let_def)
  with post_logged_agrees [of env b st] show ?thesis by simp
qed

theorem missing_field_rejected_witness:
  "\<not> truthy (get_prop scenario_C ''message'')
   \<and> post_contact (env_down 1700000000123) scenario_C state0 =
       (state0, \<lparr>statusCode = 400, json = Failure ''Please fill in all required fields.''\<rparr>)
   \<and> fallbackContacts (fst (post_contact_logged (env_down 1700000000123) scenario_C state0)) = []
   \<and> db_calls (fst (post_contact_logged (env_down 1700000000123) scenario_C state0)) = []"
proof -
  have h: "\<not> truthy (get_prop scenario_C ''name'') \<or> \<not> truthy (get_prop scenario_C ''email'')
      \<or> \<not> truthy (get_prop scenario_C ''service'') \<or> \<not> truthy (get_prop scenario_C ''message'')"
    by (simp add: scenario_C_def get_prop_def)
  have m: "\<not> truthy (get_prop scenario_C ''message'')"
    by (simp add: scenario_C_def get_prop_def)
  from m missing_field_rejected [OF h, of "env_down 1700000000123" state0] show ?thesis
    by (simp add: state0_def)
qed





subsection \<open>Saving to and listing from the fallback tier\<close>

lemma scenario_A_passes: "passes_checks scenario_A"
  using jo_email
  by (simp add: passes_checks_def scenario_A_def get_prop_def emailRegex_test_def)
    (simp add: lit_def)

lemma scenario_B_passes: "passes_checks scenario_B"
  using jo_email
  by (simp add: passes_checks_def scenario_B_def get_prop_def emailRegex_test_def)
    (simp add: lit_def)

lemma sort_desc_set [simp]: "set (sort_desc cs) = set cs"
  by (simp add: sort_desc_def)

lemma sort_desc_mset [simp]: "mset (sort_desc cs) = mset cs"
  by (simp add: sort_desc_def)

lemma sort_desc_sorted: "sorted_wrt (\<lambda>a b. submittedAt b \<le> submittedAt a) (sort_desc cs)"
proof -
  have "sorted (map (\<lambda>c. - submittedAt c) (sort_desc cs))" by (simp add: sort_desc_def)
  then show ?thesis by (simp add: sorted_map sorted_wrt_iff_nth_less)
qed

lemma get_contacts_fallback:
  assumes "readyState_first g \<noteq> 1 \<or> (\<exists>e. find_outcome g = Inl e)"
  shows "get_contacts g st =
    (st\<lparr>db_calls := db_calls st @ (if readyState_first g = 1 then [Find] else []),
        fallbackContacts := sort_desc (fallbackContacts st)\<rparr>,
     \<lparr>statusCode = 200,
      json = Listing (sort_desc (fallbackContacts st))
               (if readyState_second g = 1 then ''mongodb'' else ''fallback'')\<rparr>)"
  using assms by (auto simp add: get_contacts_def)

lemma plumbing_unlisted: "lit ''Plumbing'' \<notin> set service_enum"
  by (simp add: service_enum_def lit_def)


text \<open>
  C1. For a body that passes the upfront checks, when the primary store is not connected or
  \<open>Contact.create\<close> throws, the handler answers 200: the record, with the id
  \<open>Date.now().toString()\<close>, \<open>submittedAt\<close> the current time and status \<open>new\<close>, is appended
  to the fallback list. A later listing includes it when that listing is served from the
  fallback tier (the primary store not connected, or its read failing). A listing served
  from the primary store does not: the counterexample is a write that the connected
  primary store rejects, followed by a listing that the primary store answers.
\<close>

theorem fallback_save_listed:
  assumes "passes_checks b"
    and "readyState env \<noteq> 1 \<or> (\<exists>err. create_outcome env = Inl err)"
  shows "snd (post_contact env b st) =
           \<lparr>statusCode = 200,
            json = Submitted
              ''Thank you for your message! We will get back to you within 24 hours.''
              (number_to_string (date_now env)) (new_date env)\<rparr>
         \<and> fallbackContacts (fst (post_contact env b st)) =
             fallbackContacts st @ [fallback_record env b]
         \<and> contact_id (fallback_record env b) = number_to_string (date_now env)
         \<and> submittedAt (fallback_record env b) = new_date env
         \<and> status (fallback_record env b) = JStr (lit ''new'')
         \<and> snd (post_contact_logged env b st) = snd (post_contact env b st)
         \<and> fallbackContacts (fst (post_contact_logged env b st)) =
             fallbackContacts st @ [fallback_record env b]
         \<and> (\<forall>g. readyState_first g \<noteq> 1 \<or> (\<exists>e. find_outcome g = Inl e) \<longrightarrow>
               fallback_record env b \<in>
                 set (listing_data (json (snd (get_contacts g (fst (post_contact env b st)))))))"
proof -
  note plain = post_contact_fallback [OF assms, of st]
  have listed: "fallback_record env b \<in>
      set (listing_data (json (snd (get_contacts g (fst (post_contact env b st))))))"
    if "readyState_first g \<noteq> 1 \<or> (\<exists>e. find_outcome g = Inl e)" for g
    using get_contacts_fallback [OF that, of "fst (post_contact env b st)"] plain by simp
  from plain post_logged_agrees [of env b st] listed show ?thesis
    by (simp add: fallback_record_def)
qed

theorem fallback_save_listed_witness:
  "passes_checks scenario_A \<and> readyState (env_down 1700000000123) \<noteq> 1
   \<and> snd (post_contact (env_down 1700000000123) scenario_A state0) =
       \<lparr>statusCode = 200,
        json = Submitted
          ''Thank you for your message! We will get back to you within 24 hours.''
          (lit ''1700000000123'') 1700000000123\<rparr>
   \<and> fallbackContacts (fst (post_contact (env_down 1700000000123) scenario_A state0)) =
       [fallback_record (env_down 1700000000123) scenario_A]
   \<and> fallback_record (env_down 1700000000123) scenario_A \<in>
       set (listing_data (json (snd (get_contacts list_down
         (fst (post_contact (env_down 1700000000123) scenario_A state0))))))"
proof -
  have h: "readyState (env_down 1700000000123) \<noteq> 1
      \<or> (\<exists>err. create_outcome (env_down 1700000000123) = Inl err)"
    by (simp add: env_down_def)
  have g: "readyState_first list_down \<noteq> 1 \<or> (\<exists>e. find_outcome list_down = Inl e)"
    by (simp add: list_down_def)
  have n: "number_to_string (date_now (env_down 1700000000123)) = lit ''1700000000123''"
    by (simp add: env_down_def number_to_string_def digits.simps lit_def)
  from fallback_save_listed [OF scenario_A_passes h, of state0] g n scenario_A_passes
  show ?thesis
    by (simp add: env_down_def state0_def)
qed

theorem fallback_save_listed_counterexample:
  "passes_checks scenario_B
   \<and> create_outcome (env_write_fails 1700000000123) = Inl (Error (lit ''Contact validation failed: service: Please select a valid service''))
   \<and> statusCode (snd (post_contact (env_write_fails 1700000000123) scenario_B state0)) = 200
   \<and> fallbackContacts (fst (post_contact (env_write_fails 1700000000123) scenario_B state0)) =
       [fallback_record (env_write_fails 1700000000123) scenario_B]
   \<and> fallback_record (env_write_fails 1700000000123) scenario_B \<notin>
       set (listing_data (json (snd (get_contacts list_primary
         (fst (post_contact (env_write_fails 1700000000123) scenario_B state0))))))"
proof -
  have h: "readyState (env_write_fails 1700000000123) \<noteq> 1
      \<or> (\<exists>err. create_outcome (env_write_fails 1700000000123) = Inl err)"
    by (simp add: env_write_fails_def)
  from post_contact_fallback [OF scenario_B_passes h, of state0] scenario_B_passes
  show ?thesis
    by (simp add: get_contacts_def list_primary_def state0_def env_write_fails_def)
qed

text \<open>
  C9. A body whose service is a non-empty string outside the seven values of the schema's
  enum, and whose other fields pass the upfront checks, is not rejected: the handler
  answers 200, and when the primary store is not connected the record is appended to the
  fallback list.
\<close>

theorem unlisted_service_accepted:
  assumes "truthy (get_prop b ''name'')" "truthy (get_prop b ''message'')"
    and "to_string (get_prop b ''email'') = Inr a" "xyz_shape a"
    and "get_prop b ''service'' = JStr s" "s \<noteq> []" "s \<notin> set service_enum"
  shows "statusCode (snd (post_contact env b st)) = 200
         \<and> (readyState env \<noteq> 1 \<longrightarrow>
              fallbackContacts (fst (post_contact env b st)) =
                fallbackContacts st @ [fallback_record env b]
              \<and> service (fallback_record env b) = JStr s
              \<and> json (snd (post_contact env b st)) =
                  Submitted
                    ''Thank you for your message! We will get back to you within 24 hours.''
                    (number_to_string (date_now env)) (new_date env))"
proof -
  from assms(3,4) have shape: "emailRegex_test (get_prop b ''email'') = Inr True"
    by (simp add: emailRegex_test_def emailRegex_shape)
  have "truthy (get_prop b ''email'')"
  proof (cases "get_prop b ''email''")
    case (JStr e)
    with assms(3,4) show ?thesis by (auto simp add: xyz_shape_def)
  next
    case JUndefined
    with shape show ?thesis
      by (simp add: emailRegex_test_def emailRegex_def lit_def)
  next
    case JNull
    with shape show ?thesis
      by (simp add: emailRegex_test_def emailRegex_def lit_def)
  next
    case (JBool x)
    with shape show ?thesis
      by (simp add: emailRegex_test_def emailRegex_def lit_def split: if_splits)
  next
    case (JNum r)
    with assms(3,4) have "xyz_shape r" by simp
    then have "r \<noteq> lit ''0''" "r \<noteq> lit ''NaN''"
      by (auto simp add: emailRegex_shape [symmetric] emailRegex_def lit_def)
    with JNum show ?thesis by simp
  qed simp_all
  with assms shape have ok: "passes_checks b" by (simp add: passes_checks_def)
  then have "statusCode (snd (post_contact env b st)) = 200"
    by (simp add: post_contact_def post_contact_try_def passes_checks_def Let_def split_beta)
  moreover have "fallbackContacts (fst (post_contact env b st)) =
                fallbackContacts st @ [fallback_record env b]
              \<and> service (fallback_record env b) = JStr s
              \<and> json (snd (post_contact env b st)) =
                  Submitted
                    ''Thank you for your message! We will get back to you within 24 hours.''
                    (number_to_string (date_now env)) (new_date env)"
    if "readyState env \<noteq> 1"
    using post_contact_fallback [OF ok, of env st] that assms(5)
    by (simp add: fallback_record_def)
  ultimately show ?thesis by blast
qed

theorem unlisted_service_accepted_witness:
  "truthy (get_prop scenario_B ''name'') \<and> truthy (get_prop scenario_B ''message'')
   \<and> to_string (get_prop scenario_B ''email'') = Inr (lit ''jo@x.com'')
   \<and> xyz_shape (lit ''jo@x.com'')
   \<and> get_prop scenario_B ''service'' = JStr (lit ''Plumbing'')
   \<and> lit ''Plumbing'' \<noteq> [] \<and> lit ''Plumbing'' \<notin> set service_enum
   \<and> readyState (env_down 1700000000123) \<noteq> 1
   \<and> statusCode (snd (post_contact (env_down 1700000000123) scenario_B state0)) = 200
   \<and> fallbackContacts (fst (post_contact (env_down 1700000000123) scenario_B state0)) =
       [fallback_record (env_down 1700000000123) scenario_B]"
proof -
  have h: "truthy (get_prop scenario_B ''name'')" "truthy (get_prop scenario_B ''message'')"
    by (simp_all add: scenario_B_def get_prop_def lit_def)
  have e: "to_string (get_prop scenario_B ''email'') = Inr (lit ''jo@x.com'')"
    by (simp add: scenario_B_def get_prop_def)
  have x: "xyz_shape (lit ''jo@x.com'')"
    using jo_email by (simp add: emailRegex_shape)
  have s: "get_prop scenario_B ''service'' = JStr (lit ''Plumbing'')"
    by (simp add: scenario_B_def get_prop_def)
  have n: "lit ''Plumbing'' \<noteq> []" by (simp add: lit_def)
  have d: "readyState (env_down 1700000000123) \<noteq> 1" by (simp add: env_down_def)
  from unlisted_service_accepted [OF h e x s n plumbing_unlisted, of "env_down 1700000000123" state0]
    h e x s n d plumbing_unlisted
  show ?thesis by (simp add: state0_def)
qed

section \<open>Unexpected failures and the log\<close>

lemma error_middleware_development:
  "snd (error_middleware True err req st) =
     \<lparr>statusCode = 500,
      json = FailureDetail ''Something went wrong!'' (error_message err)
               (if truthy (req_requestId req) then req_requestId req else JStr (lit ''unknown''))\<rparr>"
  by (simp add: error_middleware_def Let_def)



lemma get_prop_update:
  "get_prop (AList.update k v b) k' = (if k' = k then v else get_prop b k')"
  by (simp add: get_prop_def update_conv')

lemma redacted_update:
  assumes "truthy (get_prop b ''message'')" "truthy v"
  shows "redacted (AList.update ''message'' v b) = redacted b"
  using assms by (simp add: redacted_def get_prop_update)

lemma redacted_message:
  "truthy (get_prop b ''message'') \<Longrightarrow> get_prop (redacted b) ''message'' = JStr (lit ''[REDACTED]'')"
  by (simp add: redacted_def get_prop_update)

lemma logged_bodies_log_call:
  "logged_bodies (logs (log_call e st)) = logged_bodies (logs st) @ meta_bodies (meta e)"
  by (simp add: logged_bodies_def log_call_def)

lemma logged_bodies_save:
  "logged_bodies (logs (fst (save_contact_logged env n e p s m st))) = logged_bodies (logs st)"
  by (simp add: save_contact_logged_def primary_save_logged_def fallback_save_logged_def
      log_debug_def logged_bodies_def log_call_def Let_def split: sum.splits)

lemma logged_bodies_catch:
  "logged_bodies (logs (fst (contact_catch env err b st))) = logged_bodies (logs st) @ [redacted b]"
  by (simp add: contact_catch_def logged_bodies_log_call)

lemma logged_bodies_post:
  "logged_bodies (logs (fst (post_contact_logged env b st))) =
     logged_bodies (logs st) @ (if reaches_catch b then [redacted b, redacted b] else [redacted b])"
  by (simp add: post_contact_logged_def post_contact_logged_try_def reaches_catch_def Let_def
      split_beta logged_bodies_log_call logged_bodies_save logged_bodies_catch split: sum.splits)

lemma reaches_catch_update:
  assumes "truthy (get_prop b ''message'')" "truthy v"
  shows "reaches_catch (AList.update ''message'' v b) = reaches_catch b"
  using assms by (simp add: reaches_catch_def get_prop_update)

lemma save_logged_logs:
  assumes "logs st = logs st'" "length (fallbackContacts st) = length (fallbackContacts st')"
  shows "logs (fst (save_contact_logged env n e p s m st)) =
           logs (fst (save_contact_logged env n e p s m' st'))
       \<and> contact_id (snd (save_contact_logged env n e p s m st)) =
           contact_id (snd (save_contact_logged env n e p s m' st'))"
  using assms
  by (simp add: save_contact_logged_def primary_save_logged_def fallback_save_logged_def
      log_debug_def log_call_def Let_def split: sum.splits)

lemma post_logged_logs:
  assumes "truthy (get_prop b ''message'')" "truthy v"
  shows "logs (fst (post_contact_logged env (AList.update ''message'' v b) st)) =
         logs (fst (post_contact_logged env b st))"
proof -
  let ?b' = "AList.update ''message'' v b"
  let ?st0 = "log_call \<lparr>level = INFO, msg = ''Contact form submission started'', thrown = None,
                   meta = [(''requestId'', MVal (JStr (requestId env))),
                           (''body'', MObj (redacted b))]\<rparr> st"
  have "logs ?st0 = logs ?st0" "length (fallbackContacts ?st0) = length (fallbackContacts ?st0)"
    by simp_all
  from save_logged_logs [OF this, of env "get_prop b ''name''" "get_prop b ''email''"
      "get_prop b ''phone''" "get_prop b ''service''" v "get_prop b ''message''"] assms
  show ?thesis
    by (simp add: post_contact_logged_def post_contact_logged_try_def contact_catch_def Let_def
        split_beta get_prop_update redacted_update log_call_def split: sum.splits)
qed

text \<open>
  C8. Take a body whose \<open>message\<close> is non-empty and replace that message by another
  non-empty value. The \<open>body\<close> objects that the handler logs (at the start of the
  submission and in the outer \<open>catch\<close>) are the same for both bodies, whatever the
  environments of the two requests: in them \<open>message\<close> is \<open>[REDACTED]\<close>. In one and the
  same environment the two requests produce the same log altogether.
\<close>

theorem message_redacted_in_logs:
  assumes "truthy (get_prop b ''message'')" "truthy v"
  shows "logged_bodies (logs (fst (post_contact_logged env (AList.update ''message'' v b) st))) =
           logged_bodies (logs st) @
             (if reaches_catch b then [redacted b, redacted b] else [redacted b])
       \<and> logged_bodies (logs (fst (post_contact_logged env' b st))) =
           logged_bodies (logs st) @
             (if reaches_catch b then [redacted b, redacted b] else [redacted b])
       \<and> logged_bodies (logs (fst (contact_catch env err (AList.update ''message'' v b) st))) =
           logged_bodies (logs st) @ [redacted b]
       \<and> logged_bodies (logs (fst (contact_catch env' err' b st))) =
           logged_bodies (logs st) @ [redacted b]
       \<and> get_prop (redacted b) ''message'' = JStr (lit ''[REDACTED]'')
       \<and> logs (fst (post_contact_logged env (AList.update ''message'' v b) st)) =
           logs (fst (post_contact_logged env b st))"
  using redacted_update [OF assms] redacted_message [OF assms(1)] post_logged_logs [OF assms]
    reaches_catch_update [OF assms]
  by (simp add: logged_bodies_post logged_bodies_catch)

lemma scenario_A_no_catch: "\<not> reaches_catch scenario_A"
  using scenario_A_passes by (simp add: reaches_catch_def passes_checks_def)

theorem message_redacted_in_logs_witness:
  "truthy (get_prop scenario_A ''message'') \<and> truthy (JStr (lit ''my address is 1 Main St''))
   \<and> logged_bodies (logs (fst (post_contact_logged (env_down 1700000000123)
        (AList.update ''message'' (JStr (lit ''my address is 1 Main St'')) scenario_A) state0))) =
      [[(''name'', JStr (lit ''Jo'')), (''email'', JStr (lit ''jo@x.com'')),
        (''service'', JStr (lit ''Civil Work'')), (''message'', JStr (lit ''[REDACTED]''))]]
   \<and> logged_bodies (logs (fst (post_contact_logged (env_down 1700000000123) scenario_A state0))) =
      [[(''name'', JStr (lit ''Jo'')), (''email'', JStr (lit ''jo@x.com'')),
        (''service'', JStr (lit ''Civil Work'')), (''message'', JStr (lit ''[REDACTED]''))]]"
proof -
  have h: "truthy (get_prop scenario_A ''message'')" "truthy (JStr (lit ''my address is 1 Main St''))"
    by (simp_all add: scenario_A_def get_prop_def lit_def)
  have r: "redacted scenario_A =
      [(''name'', JStr (lit ''Jo'')), (''email'', JStr (lit ''jo@x.com'')),
        (''service'', JStr (lit ''Civil Work'')), (''message'', JStr (lit ''[REDACTED]''))]"
    using h(1) by (simp add: redacted_def) (simp add: scenario_A_def)
  from message_redacted_in_logs [OF h, of "env_down 1700000000123" state0
      "env_down 1700000000123"] h r scenario_A_no_catch
  show ?thesis by (simp add: state0_def logged_bodies_def)
qed

section \<open>Listing, identifiers and timestamps\<close>

lemma sort_desc_sorted_iff:
  "sorted (map (\<lambda>c. - submittedAt c) cs) \<longleftrightarrow> sorted_wrt (\<lambda>a b. submittedAt b \<le> submittedAt a) cs"
  by (simp add: sorted_map)

lemma sort_desc_id_iff:
  "sort_desc cs = cs \<longleftrightarrow> sorted_wrt (\<lambda>a b. submittedAt b \<le> submittedAt a) cs"
proof
  assume "sort_desc cs = cs"
  with sort_desc_sorted [of cs] show "sorted_wrt (\<lambda>a b. submittedAt b \<le> submittedAt a) cs" by simp
next
  assume "sorted_wrt (\<lambda>a b. submittedAt b \<le> submittedAt a) cs"
  then have "sorted (map (\<lambda>c. - submittedAt c) cs)" by (simp add: sort_desc_sorted_iff)
  then show "sort_desc cs = cs" unfolding sort_desc_def by (rule sort_key_id_if_sorted)
qed

text \<open>
  C10. When the listing is served from the fallback tier (the primary store not connected,
  or its read failing), the stored list itself becomes the list sorted by descending
  \<open>submittedAt\<close>, which is also the data returned: the records are the same as a
  multiset, and the stored list is unchanged exactly when it was in descending order
  already.
\<close>

theorem listing_sorts_in_place:
  assumes "readyState_first g \<noteq> 1 \<or> (\<exists>e. find_outcome g = Inl e)"
  shows "fallbackContacts (fst (get_contacts g st)) = sort_desc (fallbackContacts st)
       \<and> listing_data (json (snd (get_contacts g st))) = fallbackContacts (fst (get_contacts g st))
       \<and> sorted_wrt (\<lambda>a b. submittedAt b \<le> submittedAt a) (fallbackContacts (fst (get_contacts g st)))
       \<and> mset (fallbackContacts (fst (get_contacts g st))) = mset (fallbackContacts st)
       \<and> (fallbackContacts (fst (get_contacts g st)) = fallbackContacts st
            \<longleftrightarrow> sorted_wrt (\<lambda>a b. submittedAt b \<le> submittedAt a) (fallbackContacts st))"
  using get_contacts_fallback [OF assms, of st] sort_desc_sorted [of "fallbackContacts st"]
    sort_desc_id_iff [of "fallbackContacts st"]
  by simp

lemma down_A:
  "fallbackContacts (fst (post_contact (env_down t) scenario_A st)) =
     fallbackContacts st @ [fallback_record (env_down t) scenario_A]"
proof -
  have d: "readyState (env_down t) \<noteq> 1 \<or> (\<exists>err. create_outcome (env_down t) = Inl err)"
    by (simp add: env_down_def)
  show ?thesis by (simp add: post_contact_fallback [OF scenario_A_passes d])
qed

lemma down_record [simp]:
  "submittedAt (fallback_record (env_down t) b) = t"
  "contact_id (fallback_record (env_down t) b) = number_to_string t"
  by (simp_all add: fallback_record_def env_down_def)

lemma two_saves:
  "fallbackContacts (submit_all [(env_down t, scenario_A), (env_down u, scenario_A)] state0) =
     [fallback_record (env_down t) scenario_A, fallback_record (env_down u) scenario_A]"
  by (simp add: down_A state0_def)

theorem listing_sorts_in_place_witness:
  "readyState_first list_down \<noteq> 1
   \<and> fallbackContacts (submit_all [(env_down 1700000000123, scenario_A),
        (env_down 1700000000456, scenario_A)] state0) =
       [fallback_record (env_down 1700000000123) scenario_A,
        fallback_record (env_down 1700000000456) scenario_A]
   \<and> fallbackContacts (fst (get_contacts list_down
        (submit_all [(env_down 1700000000123, scenario_A),
           (env_down 1700000000456, scenario_A)] state0))) =
       [fallback_record (env_down 1700000000456) scenario_A,
        fallback_record (env_down 1700000000123) scenario_A]"
proof -
  have g: "readyState_first list_down \<noteq> 1 \<or> (\<exists>e. find_outcome list_down = Inl e)"
    by (simp add: list_down_def)
  have s: "sort_desc [fallback_record (env_down 1700000000123) scenario_A,
        fallback_record (env_down 1700000000456) scenario_A] =
       [fallback_record (env_down 1700000000456) scenario_A,
        fallback_record (env_down 1700000000123) scenario_A]"
    by (simp add: sort_desc_def)
  from listing_sorts_in_place [OF g, of "submit_all [(env_down 1700000000123, scenario_A),
        (env_down 1700000000456, scenario_A)] state0"] s
  show ?thesis
    by (simp del: submit_all.simps add: two_saves list_down_def)
qed

text \<open>
  C6. The listing answers 200 with \<open>{success: true, data, source}\<close>, where \<open>source\<close> is
  \<open>"mongodb"\<close> or \<open>"fallback"\<close>. With the primary store not connected throughout the
  request, \<open>source\<close> is \<open>"fallback"\<close> and the data is the sorted fallback list; with the
  primary store connected throughout and its read succeeding, \<open>source\<close> is \<open>"mongodb"\<close>
  and the data is what the read returned. The counterexample is a listing that the
  primary store answers: its tag is \<open>"mongodb"\<close>, not \<open>"primary"\<close>.
\<close>

theorem listing_source_tag:
  "statusCode (snd (get_contacts g st)) = 200
   \<and> json (snd (get_contacts g st)) =
       Listing (listing_data (json (snd (get_contacts g st))))
         (listing_source (json (snd (get_contacts g st))))
   \<and> listing_source (json (snd (get_contacts g st))) \<in> {''mongodb'', ''fallback''}
   \<and> (readyState_first g \<noteq> 1 \<and> readyState_second g = readyState_first g \<longrightarrow>
        json (snd (get_contacts g st)) = Listing (sort_desc (fallbackContacts st)) ''fallback'')
   \<and> (\<forall>docs. readyState_first g = 1 \<and> readyState_second g = 1 \<and> find_outcome g = Inr docs \<longrightarrow>
        json (snd (get_contacts g st)) = Listing docs ''mongodb'')"
  by (simp add: get_contacts_def split: sum.splits)

lemma state_two:
  "fallbackContacts (run [Submit (env_down t) scenario_A, Submit (env_down u) scenario_A] state0) =
     [fallback_record (env_down t) scenario_A, fallback_record (env_down u) scenario_A]"
  by (simp add: down_A state0_def)

theorem listing_source_tag_witness:
  "readyState_first list_down \<noteq> 1 \<and> readyState_second list_down = readyState_first list_down
   \<and> fallbackContacts (run [Submit (env_down 1700000000123) scenario_A,
        Submit (env_down 1700000000456) scenario_A] state0) =
       [fallback_record (env_down 1700000000123) scenario_A,
        fallback_record (env_down 1700000000456) scenario_A]
   \<and> json (snd (get_contacts list_down
        (run [Submit (env_down 1700000000123) scenario_A,
              Submit (env_down 1700000000456) scenario_A] state0))) =
       Listing [fallback_record (env_down 1700000000456) scenario_A,
                fallback_record (env_down 1700000000123) scenario_A] ''fallback''
   \<and> readyState_first list_primary_doc = 1 \<and> readyState_second list_primary_doc = 1
   \<and> find_outcome list_primary_doc = Inr [primary_doc]
   \<and> json (snd (get_contacts list_primary_doc
        (run [Submit (env_down 1700000000123) scenario_A,
              Submit (env_down 1700000000456) scenario_A] state0))) =
       Listing [primary_doc] ''mongodb''"
proof -
  let ?st = "run [Submit (env_down 1700000000123) scenario_A,
              Submit (env_down 1700000000456) scenario_A] state0"
  have d: "readyState_first list_down \<noteq> 1" "readyState_second list_down = readyState_first list_down"
    by (simp_all add: list_down_def)
  have p: "readyState_first list_primary_doc = 1" "readyState_second list_primary_doc = 1"
    "find_outcome list_primary_doc = Inr [primary_doc]"
    by (simp_all add: list_primary_doc_def)
  have s: "sort_desc [fallback_record (env_down 1700000000123) scenario_A,
        fallback_record (env_down 1700000000456) scenario_A] =
       [fallback_record (env_down 1700000000456) scenario_A,
        fallback_record (env_down 1700000000123) scenario_A]"
    by (simp add: sort_desc_def)
  from listing_source_tag [of list_down ?st] listing_source_tag [of list_primary_doc ?st] d p s
  show ?thesis
    by (simp del: run.simps add: state_two)
qed

theorem listing_source_tag_counterexample:
  "readyState_first list_primary_doc = 1 \<and> readyState_second list_primary_doc = 1
   \<and> find_outcome list_primary_doc = Inr [primary_doc]
   \<and> listing_data (json (snd (get_contacts list_primary_doc state0))) = [primary_doc]
   \<and> listing_source (json (snd (get_contacts list_primary_doc state0))) = ''mongodb''
   \<and> listing_source (json (snd (get_contacts list_primary_doc state0))) \<noteq> ''primary''
   \<and> listing_source (json (snd (get_contacts list_primary_doc state0))) \<noteq> ''fallback''"
  by (simp add: get_contacts_def list_primary_doc_def)

text \<open>
  The read-failure path: the primary store is connected and its read throws. The data is
  the fallback list, as on the not-connected path, but the tag is computed from the
  connection state and reads \<open>"mongodb"\<close>.
\<close>

lemma listing_read_failure_tag:
  "json (snd (get_contacts list_read_fails
      (run [Submit (env_down 1700000000123) scenario_A] state0))) =
     Listing [fallback_record (env_down 1700000000123) scenario_A] ''mongodb''"
  by (simp add: down_A get_contacts_def state0_def sort_desc_def list_read_fails_def)

lemma post_contact_appends:
  "fallbackContacts (fst (post_contact env b st)) = fallbackContacts st
   \<or> fallbackContacts (fst (post_contact env b st)) = fallbackContacts st @ [fallback_record env b]"
  by (simp add: post_contact_def post_contact_try_def post_contact_catch_def save_contact_def
      primary_save_def fallback_save_def fallback_record_def Let_def split: sum.splits)

lemma appended_by_cases:
  "appended_by env b st = [] \<or> appended_by env b st = [fallback_record env b]"
  using post_contact_appends [of env b st] by (auto simp add: appended_by_def)

lemma post_contact_appended_by:
  "fallbackContacts (fst (post_contact env b st)) = fallbackContacts st @ appended_by env b st"
  using post_contact_appends [of env b st] by (auto simp add: appended_by_def)

lemma get_contacts_mset:
  "mset (fallbackContacts (fst (get_contacts g st))) = mset (fallbackContacts st)"
  by (simp add: get_contacts_def split: sum.splits)

lemma appended_readings:
  "map submittedAt (appended rs st) = clock_readings rs st"
proof (induction rs st rule: appended.induct)
  case (2 env b rs st)
  with appended_by_cases [of env b st] show ?case
    by (auto simp add: fallback_record_def)
qed simp_all

lemma run_mset:
  "mset (fallbackContacts (run rs st)) = mset (fallbackContacts st) + mset (appended rs st)"
proof (induction rs st rule: appended.induct)
  case (2 env b rs st)
  then show ?case by (simp add: post_contact_appended_by)
next
  case (3 g rs st)
  then show ?case by (simp add: get_contacts_mset)
qed simp

text \<open>
  C5. Over any sequence of submissions and listings, the \<open>submittedAt\<close> of the records
  pushed onto the fallback list, in the order of their insertion, are the readings of
  \<open>new Date()\<close> that the pushing submissions took. So if these readings never step
  backwards, a record pushed later has a \<open>submittedAt\<close> at least that of every record
  pushed before, whatever order the listings have sorted the stored list into; the stored
  list holds its former records and the pushed ones. Without the condition on the clock
  the order is lost: the counterexample is a second submission whose clock reading is
  earlier than the first one's.
\<close>

theorem timestamps_ascending_preserved:
  assumes "sorted (clock_readings rs st)"
  shows "sorted (map submittedAt (appended rs st))
       \<and> map submittedAt (appended rs st) = clock_readings rs st
       \<and> mset (fallbackContacts (run rs st)) = mset (fallbackContacts st) + mset (appended rs st)"
  using assms appended_readings [of rs st] run_mset [of rs st] by simp

lemma appended_down_A:
  "appended_by (env_down t) scenario_A st = [fallback_record (env_down t) scenario_A]"
  by (simp add: appended_by_def down_A)

theorem timestamps_ascending_preserved_witness:
  "sorted (clock_readings [Submit (env_down 1700000000123) scenario_A,
      Submit (env_down 1700000000456) scenario_A, ListAll list_down,
      Submit (env_down 1700000000789) scenario_A] state0)
   \<and> map submittedAt (appended [Submit (env_down 1700000000123) scenario_A,
      Submit (env_down 1700000000456) scenario_A, ListAll list_down,
      Submit (env_down 1700000000789) scenario_A] state0) =
      [1700000000123, 1700000000456, 1700000000789]
   \<and> map submittedAt (fallbackContacts (run [Submit (env_down 1700000000123) scenario_A,
      Submit (env_down 1700000000456) scenario_A, ListAll list_down,
      Submit (env_down 1700000000789) scenario_A] state0)) =
      [1700000000456, 1700000000123, 1700000000789]
   \<and> sorted (map submittedAt (appended [Submit (env_down 1700000000123) scenario_A,
      Submit (env_down 1700000000456) scenario_A, ListAll list_down,
      Submit (env_down 1700000000789) scenario_A] state0))"
proof -
  let ?rs = "[Submit (env_down 1700000000123) scenario_A,
      Submit (env_down 1700000000456) scenario_A, ListAll list_down,
      Submit (env_down 1700000000789) scenario_A]"
  have n: "new_date (env_down t) = t" for t by (simp add: env_down_def)
  have c: "sorted (clock_readings ?rs state0)" by (simp add: n appended_down_A)
  have a: "map submittedAt (appended ?rs state0) =
      [1700000000123, 1700000000456, 1700000000789]"
    by (simp add: appended_down_A)
  have g: "readyState_first list_down \<noteq> 1 \<or> (\<exists>e. find_outcome list_down = Inl e)"
    by (simp add: list_down_def)
  have r: "map submittedAt (fallbackContacts (run ?rs state0)) =
      [1700000000456, 1700000000123, 1700000000789]"
    by (simp add: down_A get_contacts_fallback [OF g] state0_def sort_desc_def)
  from timestamps_ascending_preserved [OF c] c a r show ?thesis
    by (simp del: appended.simps run.simps clock_readings.simps)
qed

theorem timestamps_ascending_preserved_counterexample:
  "map submittedAt (appended [Submit (env_down 1700000000456) scenario_A,
      Submit (env_down 1700000000123) scenario_A] state0) =
      [1700000000456, 1700000000123]
   \<and> map submittedAt (fallbackContacts (run [Submit (env_down 1700000000456) scenario_A,
      Submit (env_down 1700000000123) scenario_A] state0)) =
      [1700000000456, 1700000000123]
   \<and> \<not> sorted (map submittedAt (appended [Submit (env_down 1700000000456) scenario_A,
      Submit (env_down 1700000000123) scenario_A] state0))"
  by (simp add: appended_down_A down_A state0_def)

lemma submit_all_fallback:
  assumes "\<forall>r \<in> set rs. passes_checks (snd r) \<and> readyState (fst r) \<noteq> 1"
  shows "fallbackContacts (submit_all rs st) =
           fallbackContacts st @ map (\<lambda>r. fallback_record (fst r) (snd r)) rs"
  using assms
proof (induction rs arbitrary: st)
  case Nil
  show ?case by simp
next
  case (Cons r rs)
  from Cons.prems have ok: "passes_checks (snd r)"
    and down: "readyState (fst r) \<noteq> 1 \<or> (\<exists>err. create_outcome (fst r) = Inl err)" by simp_all
  from Cons.prems have rest: "\<forall>r \<in> set rs. passes_checks (snd r) \<and> readyState (fst r) \<noteq> 1"
    by simp
  show ?case
    by (simp add: Cons.IH [OF rest] post_contact_fallback [OF ok down])
qed

lemma ids_distinct_iff:
  "distinct (map (\<lambda>r. number_to_string (date_now (fst r))) rs) \<longleftrightarrow>
   distinct (map (\<lambda>r. date_now (fst r)) rs)"
proof -
  have inj: "inj_on number_to_string A" for A
    by (rule inj_onI) (rule number_to_string_inj)
  have "distinct (map number_to_string ys) \<longleftrightarrow> distinct ys" for ys
    using inj by (simp add: distinct_map)
  from this [of "map (\<lambda>r. date_now (fst r)) rs"] show ?thesis by (simp add: comp_def)
qed

text \<open>
  C4. \<open>N\<close> submissions that pass the upfront checks, handled in sequence with the primary
  store not connected and starting from an empty fallback list, leave \<open>N\<close> records whose
  ids are the decimal renderings of the \<open>Date.now()\<close> readings. The ids are pairwise
  distinct exactly when these readings are; two submissions in the same millisecond share
  their id, which is the counterexample. A listing from the fallback tier returns the
  same records in non-increasing order of \<open>submittedAt\<close>.
\<close>

theorem sequential_saves_ids_and_order:
  assumes "\<forall>r \<in> set rs. passes_checks (snd r) \<and> readyState (fst r) \<noteq> 1"
    and "fallbackContacts st = []"
  shows "length (fallbackContacts (submit_all rs st)) = length rs
       \<and> map contact_id (fallbackContacts (submit_all rs st)) =
           map (\<lambda>r. number_to_string (date_now (fst r))) rs
       \<and> (distinct (map contact_id (fallbackContacts (submit_all rs st))) \<longleftrightarrow>
            distinct (map (\<lambda>r. date_now (fst r)) rs))
       \<and> (\<forall>g. readyState_first g \<noteq> 1 \<longrightarrow>
            mset (listing_data (json (snd (get_contacts g (submit_all rs st))))) =
              mset (fallbackContacts (submit_all rs st))
            \<and> sorted_wrt (\<lambda>a b. submittedAt b \<le> submittedAt a)
                (listing_data (json (snd (get_contacts g (submit_all rs st))))))"
proof -
  have l: "fallbackContacts (submit_all rs st) = map (\<lambda>r. fallback_record (fst r) (snd r)) rs"
    using submit_all_fallback [OF assms(1), of st] assms(2) by simp
  have ids: "map contact_id (fallbackContacts (submit_all rs st)) =
           map (\<lambda>r. number_to_string (date_now (fst r))) rs"
    by (simp add: l fallback_record_def comp_def)
  have listing: "mset (listing_data (json (snd (get_contacts g (submit_all rs st))))) =
              mset (fallbackContacts (submit_all rs st))
            \<and> sorted_wrt (\<lambda>a b. submittedAt b \<le> submittedAt a)
                (listing_data (json (snd (get_contacts g (submit_all rs st)))))"
    if "readyState_first g \<noteq> 1" for g
  proof -
    from that have "readyState_first g \<noteq> 1 \<or> (\<exists>e. find_outcome g = Inl e)" by simp
    from get_contacts_fallback [OF this, of "submit_all rs st"]
      sort_desc_sorted [of "fallbackContacts (submit_all rs st)"]
    show ?thesis by simp
  qed
  from l have "length (fallbackContacts (submit_all rs st)) = length rs" by simp
  with ids ids_distinct_iff [of rs] listing show ?thesis by simp
qed

theorem sequential_saves_ids_and_order_witness:
  "passes_checks scenario_A \<and> readyState (env_down 1700000000123) \<noteq> 1
   \<and> readyState (env_down 1700000000456) \<noteq> 1 \<and> fallbackContacts state0 = []
   \<and> map contact_id (fallbackContacts (submit_all [(env_down 1700000000123, scenario_A),
        (env_down 1700000000456, scenario_A)] state0)) =
       [lit ''1700000000123'', lit ''1700000000456'']
   \<and> distinct (map contact_id (fallbackContacts (submit_all [(env_down 1700000000123, scenario_A),
        (env_down 1700000000456, scenario_A)] state0)))"
proof -
  have d: "readyState (env_down x) \<noteq> 1" for x by (simp add: env_down_def)
  have h: "\<forall>r \<in> set [(env_down 1700000000123, scenario_A), (env_down 1700000000456, scenario_A)].
      passes_checks (snd r) \<and> readyState (fst r) \<noteq> 1"
    using scenario_A_passes d by simp
  have e: "fallbackContacts state0 = []" by (simp add: state0_def)
  have n: "number_to_string 1700000000123 = lit ''1700000000123''"
     "number_to_string 1700000000456 = lit ''1700000000456''"
    by (simp_all add: number_to_string_def digits.simps lit_def)
  have t: "date_now (env_down x) = x" for x by (simp add: env_down_def)
  from sequential_saves_ids_and_order [OF h e] scenario_A_passes d e
  show ?thesis by (simp del: submit_all.simps add: n t lit_def)
qed

theorem sequential_saves_ids_and_order_counterexample:
  "passes_checks scenario_A \<and> readyState (env_down 1700000000123) \<noteq> 1
   \<and> map contact_id (fallbackContacts (submit_all [(env_down 1700000000123, scenario_A),
        (env_down 1700000000123, scenario_A)] state0)) =
       [lit ''1700000000123'', lit ''1700000000123'']
   \<and> \<not> distinct (map contact_id (fallbackContacts (submit_all [(env_down 1700000000123, scenario_A),
        (env_down 1700000000123, scenario_A)] state0)))"
proof -
  have d: "readyState (env_down 1700000000123) \<noteq> 1" by (simp add: env_down_def)
  have n: "number_to_string 1700000000123 = lit ''1700000000123''"
    by (simp add: number_to_string_def digits.simps lit_def)
  from scenario_A_passes d show ?thesis
    by (simp del: submit_all.simps add: two_saves n lit_def)
qed

end
